theory Spec2Isabelle
  imports Main
begin

section \<open>JavaScript array primitives used by the components\<close>

text \<open>
  \<^verbatim>\<open>Array.prototype.slice(start, end)\<close>: a negative bound counts from the end of the
  array, and both bounds are clamped to \<open>0 .. length\<close>.
\<close>

definition js_rel_index :: "nat \<Rightarrow> int \<Rightarrow> nat" where
  "js_rel_index len k = (if k < 0 then nat (max (int len + k) 0) else min (nat k) len)"

definition js_slice :: "'a list \<Rightarrow> int \<Rightarrow> int \<Rightarrow> 'a list" where
  "js_slice xs start end =
     (let from = js_rel_index (length xs) start;
          to = js_rel_index (length xs) end
      in take (to - from) (drop from xs))"

text \<open>\<^verbatim>\<open>xs.slice(start)\<close>: the end bound defaults to the length.\<close>

definition js_slice_from :: "'a list \<Rightarrow> int \<Rightarrow> 'a list" where
  "js_slice_from xs start = drop (js_rel_index (length xs) start) xs"

text \<open>\<^verbatim>\<open>xs[i]\<close>: \<open>None\<close> stands for \<^verbatim>\<open>undefined\<close>, the value of an out-of-range read.\<close>

definition js_index :: "'a list \<Rightarrow> int \<Rightarrow> 'a option" where
  "js_index xs i = (if 0 \<le> i \<and> i < int (length xs) then Some (xs ! nat i) else None)"

text \<open>\<^verbatim>\<open>xs.push(x)\<close> and \<^verbatim>\<open>xs.shift()\<close> (the array after the call).\<close>

definition js_push :: "'a list \<Rightarrow> 'a \<Rightarrow> 'a list" where
  "js_push xs x = xs @ [x]"

fun js_shift :: "'a list \<Rightarrow> 'a list" where
  "js_shift [] = []"
| "js_shift (x # xs) = xs"

section \<open>CSVEditor: the canonical table and its history\<close>

record CSVData =
  data :: "string list list"
  headers :: "string list"

text \<open>\<^verbatim>\<open>type HistoryState = { csvData: CSVData | null; fileName: string }\<close>\<close>

record HistoryState =
  hs_csvData :: "CSVData option"
  hs_fileName :: string

text \<open>The React state of \<^verbatim>\<open>CSVEditor\<close>; \<open>currentHistoryIndex\<close> starts at \<open>-1\<close>.\<close>

record editor =
  csvData :: "CSVData option"
  fileName :: string
  isLoading :: bool
  history :: "HistoryState list"
  currentHistoryIndex :: int

definition initial_editor :: editor where
  "initial_editor =
     \<lparr>csvData = None, fileName = ''data.csv'', isLoading = False,
      history = [], currentHistoryIndex = -1\<rparr>"

text \<open>
  The toasts raised by the handlers, named by what they report. \<open>Undone\<close> and
  \<open>Redone\<close> are \<^verbatim>\<open>toast.success\<close>, \<open>CannotUndo\<close> and \<open>CannotRedo\<close> are
  \<^verbatim>\<open>toast.error\<close>.
\<close>

datatype toast =
    Undone | CannotUndo | Redone | CannotRedo
  | Uploaded | UploadEmpty | UploadParseError
  | TemplateCreated
  | AIUpdated | AINoChangeNeeded | AIInvalidFormat | AINoResponse | AIFailed

text \<open>Reading a property of \<^verbatim>\<open>undefined\<close> throws.\<close>

datatype js_error = TypeError

text \<open>
  \<^verbatim>\<open>updateHistory(newCsvData, newFileName)\<close>: the closure reads \<open>history\<close> and
  \<open>currentHistoryIndex\<close> of the render it was created in, and sets both.
\<close>

definition updateHistory :: "CSVData option \<Rightarrow> string \<Rightarrow> editor \<Rightarrow> editor" where
  "updateHistory newCsvData newFileName s =
     (let newHistory = js_slice (history s) 0 (currentHistoryIndex s + 1);
          newHistory = js_push newHistory \<lparr>hs_csvData = newCsvData, hs_fileName = newFileName\<rparr>;
          newHistory = (if length newHistory > 50 then js_shift newHistory else newHistory)
      in s\<lparr>history := newHistory, currentHistoryIndex := int (length newHistory) - 1\<rparr>)"

text \<open>
  \<^verbatim>\<open>updateDataWithHistory(newCsvData, newFileName?)\<close>: the optional file name is
  \<open>None\<close> when the argument is left out.
\<close>

definition updateDataWithHistory :: "CSVData option \<Rightarrow> string option \<Rightarrow> editor \<Rightarrow> editor" where
  "updateDataWithHistory newCsvData newFileName s =
     (let fileNameToUse = (case newFileName of Some n \<Rightarrow> n | None \<Rightarrow> fileName s);
          s1 = s\<lparr>csvData := newCsvData\<rparr>;
          s2 = (case newFileName of Some n \<Rightarrow> s1\<lparr>fileName := n\<rparr> | None \<Rightarrow> s1)
      in updateHistory newCsvData fileNameToUse s2)"

text \<open>
  \<^verbatim>\<open>handleUndo\<close> and \<^verbatim>\<open>handleRedo\<close>. The entry is read with \<^verbatim>\<open>history[newIndex]\<close>;
  were that \<^verbatim>\<open>undefined\<close>, reading its \<^verbatim>\<open>csvData\<close> would throw before any state is set.
\<close>

definition handleUndo :: "editor \<Rightarrow> js_error + (editor \<times> toast)" where
  "handleUndo s =
     (if currentHistoryIndex s > 0 then
        (let newIndex = currentHistoryIndex s - 1
         in case js_index (history s) newIndex of
              None \<Rightarrow> Inl TypeError
            | Some previousState \<Rightarrow>
                Inr (s\<lparr>csvData := hs_csvData previousState,
                       fileName := hs_fileName previousState,
                       currentHistoryIndex := newIndex\<rparr>, Undone))
      else Inr (s, CannotUndo))"

definition handleRedo :: "editor \<Rightarrow> js_error + (editor \<times> toast)" where
  "handleRedo s =
     (if currentHistoryIndex s < int (length (history s)) - 1 then
        (let newIndex = currentHistoryIndex s + 1
         in case js_index (history s) newIndex of
              None \<Rightarrow> Inl TypeError
            | Some nextState \<Rightarrow>
                Inr (s\<lparr>csvData := hs_csvData nextState,
                       fileName := hs_fileName nextState,
                       currentHistoryIndex := newIndex\<rparr>, Redone))
      else Inr (s, CannotRedo))"

text \<open>\<^verbatim>\<open>canUndo\<close> and \<^verbatim>\<open>canRedo\<close> as passed to the table component.\<close>

definition canUndo :: "editor \<Rightarrow> bool" where
  "canUndo s = (currentHistoryIndex s > 0)"

definition canRedo :: "editor \<Rightarrow> bool" where
  "canRedo s = (currentHistoryIndex s < int (length (history s)) - 1)"

text \<open>
  The editor's invariants between events: the cursor indexes an entry, and the table on
  screen is the one stored at the cursor.
\<close>

definition cursor_in_bounds :: "editor \<Rightarrow> bool" where
  "cursor_in_bounds s =
     (0 \<le> currentHistoryIndex s \<and> currentHistoryIndex s < int (length (history s)))"

definition table_at_cursor :: "editor \<Rightarrow> bool" where
  "table_at_cursor s =
     (map_option hs_csvData (js_index (history s) (currentHistoryIndex s)) = Some (csvData s))"

text \<open>
  \<^verbatim>\<open>handleDataChange\<close> and \<^verbatim>\<open>handleHeaderChange\<close>, the callbacks handed to the table
  component; both do nothing while no table is loaded.
\<close>

definition handleDataChange :: "string list list \<Rightarrow> editor \<Rightarrow> editor" where
  "handleDataChange newData s =
     (case csvData s of
        Some d \<Rightarrow>
          (let newCsvData = d\<lparr>data := newData\<rparr>
           in updateHistory (Some newCsvData) (fileName s) (s\<lparr>csvData := Some newCsvData\<rparr>))
      | None \<Rightarrow> s)"

definition handleHeaderChange :: "string list \<Rightarrow> editor \<Rightarrow> editor" where
  "handleHeaderChange newHeaders s =
     (case csvData s of
        Some d \<Rightarrow>
          (let newCsvData = d\<lparr>headers := newHeaders\<rparr>
           in updateHistory (Some newCsvData) (fileName s) (s\<lparr>csvData := Some newCsvData\<rparr>))
      | None \<Rightarrow> s)"

text \<open>
  \<^verbatim>\<open>handleFileUpload\<close>. The first argument is the name of \<^verbatim>\<open>event.target.files?.[0]\<close>
  (\<open>None\<close> when no file was chosen), the second what \<^verbatim>\<open>Papa.parse\<close> reports: its
  \<^verbatim>\<open>complete\<close> callback with the parsed rows, or its \<^verbatim>\<open>error\<close> callback. The file
  name and the loading flag are set before the parser is started; the callbacks run
  with no other event in between.
\<close>

datatype parse_outcome = Complete "string list list" | ParseError

definition handleFileUpload ::
  "string option \<Rightarrow> parse_outcome \<Rightarrow> editor \<Rightarrow> editor \<times> toast option" where
  "handleFileUpload file outcome s =
     (case file of
        None \<Rightarrow> (s, None)
      | Some name \<Rightarrow>
          (let s1 = s\<lparr>fileName := name, isLoading := True\<rparr>
           in case outcome of
                Complete parsedData \<Rightarrow>
                  (if length parsedData > 0 then
                     (let newCsvData =
                            \<lparr>data = js_slice_from parsedData 1, headers = hd parsedData\<rparr>;
                          s2 = updateHistory (Some newCsvData) name
                                 (s1\<lparr>csvData := Some newCsvData\<rparr>)
                      in (s2\<lparr>isLoading := False\<rparr>, Some Uploaded))
                   else (s1\<lparr>isLoading := False\<rparr>, Some UploadEmpty))
              | ParseError \<Rightarrow> (s1\<lparr>isLoading := False\<rparr>, Some UploadParseError)))"

text \<open>
  Strings are kept as their UTF-8 bytes. \<open>column_label\<close> is the two-character word
  (U+6B04, U+4F4D) that the components use for "column" in generated header names.
\<close>

definition column_label :: string where
  "column_label = [CHR 0xE6, CHR 0xAC, CHR 0x84, CHR 0xE4, CHR 0xBD, CHR 0x8D]"

definition createTemplate :: "editor \<Rightarrow> editor \<times> toast" where
  "createTemplate s =
     (let templateHeaders = [column_label @ ''1'', column_label @ ''2'', column_label @ ''3''];
          templateData = [[[], [], []], [[], [], []], [[], [], []]];
          newCsvData = \<lparr>data = templateData, headers = templateHeaders\<rparr>
      in (updateDataWithHistory (Some newCsvData) (Some ''template.csv'') s, TemplateCreated))"

section \<open>CSVTable: the grid's local copy and its structural edits\<close>

text \<open>\<^verbatim>\<open>xs.filter((_, index) => index !== k)\<close>, scanning with a running index.\<close>

fun filter_index_from :: "nat \<Rightarrow> nat \<Rightarrow> 'a list \<Rightarrow> 'a list" where
  "filter_index_from i k [] = []"
| "filter_index_from i k (x # xs) =
     (if i \<noteq> k then x # filter_index_from (Suc i) k xs else filter_index_from (Suc i) k xs)"

definition filter_index :: "nat \<Rightarrow> 'a list \<Rightarrow> 'a list" where
  "filter_index k xs = filter_index_from 0 k xs"


text \<open>The decimal digits of a number, as a template literal prints it.\<close>

fun nat_to_string :: "nat \<Rightarrow> string" where
  "nat_to_string n =
     (if n < 10 then [''0123456789'' ! n]
      else nat_to_string (n div 10) @ [''0123456789'' ! (n mod 10)])"

declare nat_to_string.simps [simp del]

text \<open>The number that a string of decimal digits denotes, to state what is printed.\<close>

definition decimal_value :: "string \<Rightarrow> nat" where
  "decimal_value ds = foldl (\<lambda>acc c. 10 * acc + (of_char c - 48)) 0 ds"

text \<open>
  The component's state: its copy of the table, the edit in progress, and
  \<^verbatim>\<open>isUpdatingRef.current\<close>. The empty string is \<open>[]\<close>.
\<close>

record grid =
  internalHeaders :: "string list"
  internalData :: "string list list"
  editingCell :: "(nat \<times> nat) option"
  editingValue :: string
  isUpdating :: bool

text \<open>What a handler passes up to the editor, in call order.\<close>

datatype callback = OnHeaderChange "string list" | OnDataChange "string list list"

text \<open>
  The row-width effect (\<^verbatim>\<open>useEffect\<close> on \<open>internalHeaders\<close> and \<open>internalData\<close>): every
  row is cut or right-padded with empty strings to the header count, and the result is
  stored and passed up only if some row had another width.
\<close>

definition normalize_row :: "nat \<Rightarrow> string list \<Rightarrow> string list" where
  "normalize_row headerCount row =
     (if length row \<noteq> headerCount then
        (if length row > headerCount then js_slice row 0 (int headerCount)
         else row @ replicate (headerCount - length row) [])
      else row)"

definition normalize_effect :: "grid \<Rightarrow> grid \<times> callback list" where
  "normalize_effect g =
     (if length (internalData g) > 0 \<and> \<not> isUpdating g then
        (let headerCount = length (internalHeaders g);
             needUpdate = list_ex (\<lambda>row. length row \<noteq> headerCount) (internalData g);
             normalizedData = map (normalize_row headerCount) (internalData g)
         in if needUpdate
            then (g\<lparr>internalData := normalizedData\<rparr>, [OnDataChange normalizedData])
            else (g, []))
      else (g, []))"

text \<open>The effect on the \<open>headers\<close> and \<open>data\<close> props: the local copy is replaced.\<close>

definition sync_effect :: "CSVData \<Rightarrow> grid \<Rightarrow> grid" where
  "sync_effect props g =
     (if \<not> isUpdating g
      then g\<lparr>internalHeaders := headers props, internalData := data props\<rparr>
      else g)"





definition addRow :: "grid \<Rightarrow> grid \<times> callback list" where
  "addRow g =
     (let newRow = replicate (length (internalHeaders g)) [];
          newData = internalData g @ [newRow]
      in (g\<lparr>internalData := newData, isUpdating := True\<rparr>, [OnDataChange newData]))"

definition deleteRow :: "nat \<Rightarrow> grid \<Rightarrow> grid \<times> callback list" where
  "deleteRow rowIndex g =
     (let newData = filter_index rowIndex (internalData g)
      in (g\<lparr>internalData := newData, isUpdating := True\<rparr>, [OnDataChange newData]))"

definition addColumn :: "grid \<Rightarrow> grid \<times> callback list" where
  "addColumn g =
     (let newHeaders =
            internalHeaders g @
            [column_label @ '' '' @ nat_to_string (length (internalHeaders g) + 1)];
          newData = map (\<lambda>row. js_push row []) (internalData g)
      in (g\<lparr>internalHeaders := newHeaders, internalData := newData, isUpdating := True\<rparr>,
          [OnHeaderChange newHeaders, OnDataChange newData]))"

definition deleteColumn :: "nat \<Rightarrow> grid \<Rightarrow> grid \<times> callback list" where
  "deleteColumn colIndex g =
     (let newHeaders = filter_index colIndex (internalHeaders g);
          newData =
            map (\<lambda>row.
                   let paddedRow =
                         (if length row < length (internalHeaders g)
                          then row @ replicate (length (internalHeaders g) - length row) []
                          else row)
                   in filter_index colIndex paddedRow)
                (internalData g)
      in (g\<lparr>internalHeaders := newHeaders, internalData := newData, isUpdating := True\<rparr>,
          [OnHeaderChange newHeaders, OnDataChange newData]))"

text \<open>The timer started by every structural edit clears the flag.\<close>

definition clear_updating :: "grid \<Rightarrow> grid" where
  "clear_updating g = g\<lparr>isUpdating := False\<rparr>"

section \<open>AIModifier: applying the analysis response\<close>

text \<open>The parsed response, as the schema \<^verbatim>\<open>AIReturnValue\<close> declares it.\<close>

record AIReturnValue =
  needsModification :: bool
  message :: string
  table :: "string list list"

text \<open>
  What the request gives back: it throws, or \<^verbatim>\<open>response.output_parsed\<close> is
  \<^verbatim>\<open>null\<close> or a parsed value.
\<close>

datatype ai_response = Threw | Parsed "AIReturnValue option"

record modifier =
  analysisResult :: string
  isProcessing :: bool

text \<open>
  \<^verbatim>\<open>processWithAI\<close> once the API key and the prompt are present: before the request
  the previous analysis is cleared, and after it the response is applied.
  \<^verbatim>\<open>onDataUpdate\<close> is the editor's \<^verbatim>\<open>updateDataWithHistory\<close> without a file name.
\<close>

definition onDataUpdate :: "CSVData \<Rightarrow> editor \<Rightarrow> editor" where
  "onDataUpdate newData s = updateDataWithHistory (Some newData) None s"

definition processWithAI ::
  "ai_response \<Rightarrow> modifier \<times> editor \<Rightarrow> (modifier \<times> editor) \<times> toast" where
  "processWithAI response st =
     (let m = (fst st)\<lparr>isProcessing := True, analysisResult := []\<rparr>;
          s = snd st;
          (m1, s1, t) =
            (case response of
               Threw \<Rightarrow> (m, s, AIFailed)
             | Parsed None \<Rightarrow> (m, s, AINoResponse)
             | Parsed (Some result) \<Rightarrow>
                 (if length (table result) > 0 then
                    (let m' = m\<lparr>analysisResult := message result\<rparr>
                     in if needsModification result then
                          (let newHeaders = hd (table result);
                               newData = js_slice_from (table result) 1
                           in (m', onDataUpdate \<lparr>data = newData, headers = newHeaders\<rparr> s,
                               AIUpdated))
                        else (m', s, AINoChangeNeeded))
                  else (m, s, AIInvalidFormat)))
      in ((m1\<lparr>isProcessing := False\<rparr>, s1), t))"

section \<open>CSVEditor: start-up and the reachable states\<close>

text \<open>
  The mount effect: a table saved in \<^verbatim>\<open>localStorage\<close> becomes the table on screen and
  the only history entry. The saved file name is used when it is present and not empty.
\<close>

definition restoreSaved :: "CSVData \<Rightarrow> string option \<Rightarrow> editor \<Rightarrow> editor" where
  "restoreSaved parsedData savedFileName s =
     (let given = (case savedFileName of
                     None \<Rightarrow> None
                   | Some n \<Rightarrow> if n = [] then None else Some n);
          s1 = s\<lparr>csvData := Some parsedData\<rparr>;
          s2 = (case given of Some n \<Rightarrow> s1\<lparr>fileName := n\<rparr> | None \<Rightarrow> s1)
      in s2\<lparr>history := [\<lparr>hs_csvData = Some parsedData,
                           hs_fileName = (case given of Some n \<Rightarrow> n | None \<Rightarrow> ''data.csv'')\<rparr>],
             currentHistoryIndex := 0\<rparr>)"

text \<open>
  The states the editor goes through, one event at a time. The table component and the
  AI panel are rendered only while a table is loaded, so undo, redo, the grid's
  callbacks and the analysis response occur only then.
\<close>

inductive reachable :: "editor \<Rightarrow> bool" where
  start: "reachable initial_editor"
| restored: "reachable (restoreSaved parsedData savedFileName initial_editor)"
| template: "reachable s \<Longrightarrow> reachable (fst (createTemplate s))"
| upload: "reachable s \<Longrightarrow> reachable (fst (handleFileUpload file outcome s))"
| undo: "reachable s \<Longrightarrow> csvData s \<noteq> None \<Longrightarrow> handleUndo s = Inr (s', t) \<Longrightarrow> reachable s'"
| redo: "reachable s \<Longrightarrow> csvData s \<noteq> None \<Longrightarrow> handleRedo s = Inr (s', t) \<Longrightarrow> reachable s'"
| data_change: "reachable s \<Longrightarrow> csvData s \<noteq> None \<Longrightarrow> reachable (handleDataChange newData s)"
| header_change:
    "reachable s \<Longrightarrow> csvData s \<noteq> None \<Longrightarrow> reachable (handleHeaderChange newHeaders s)"
| analysis:
    "reachable s \<Longrightarrow> csvData s \<noteq> None \<Longrightarrow>
     reachable (snd (fst (processWithAI response (m, s))))"

section \<open>Example states\<close>

text \<open>
  A history entry holding a one-cell table, and the editor showing entry \<open>c\<close> of a log.
\<close>

definition entry_of :: "string \<Rightarrow> HistoryState" where
  "entry_of n = \<lparr>hs_csvData = Some \<lparr>data = [[n]], headers = [''h'']\<rparr>, hs_fileName = ''data.csv''\<rparr>"

definition editor_at :: "HistoryState list \<Rightarrow> nat \<Rightarrow> editor" where
  "editor_at h c =
     \<lparr>csvData = hs_csvData (h ! c), fileName = hs_fileName (h ! c), isLoading = False,
      history = h, currentHistoryIndex = int c\<rparr>"

definition idle_modifier :: modifier where
  "idle_modifier = \<lparr>analysisResult = ''earlier'', isProcessing = False\<rparr>"

definition response_of :: "bool \<Rightarrow> string list list \<Rightarrow> AIReturnValue" where
  "response_of b rows = \<lparr>needsModification = b, message = ''checked'', table = rows\<rparr>"

definition grid_of :: "CSVData \<Rightarrow> grid" where
  "grid_of t =
     \<lparr>internalHeaders = headers t, internalData = data t, editingCell = None,
      editingValue = [], isUpdating = False\<rparr>"

section \<open>Properties of the history log\<close>


lemma js_slice_prefix: "0 \<le> e \<Longrightarrow> js_slice xs 0 e = take (nat e) xs"
  by (simp add: js_slice_def js_rel_index_def min_def)

lemma js_slice_from_1: "js_slice_from xs 1 = tl xs"
  by (cases xs) (simp_all add: js_slice_from_def js_rel_index_def)

lemma js_shift_tl: "js_shift xs = tl xs"
  by (cases xs) simp_all

lemma updateHistory_history:
  "- 1 \<le> currentHistoryIndex s \<Longrightarrow>
   history (updateHistory t l s) =
     (let appended = take (nat (currentHistoryIndex s + 1)) (history s) @
                     [\<lparr>hs_csvData = t, hs_fileName = l\<rparr>]
      in if length appended > 50 then tl appended else appended)"
  by (simp add: updateHistory_def js_slice_prefix js_push_def js_shift_tl Let_def)

lemma updateHistory_cursor:
  "currentHistoryIndex (updateHistory t l s) = int (length (history (updateHistory t l s))) - 1"
  by (simp add: updateHistory_def Let_def)

lemma updateHistory_frame:
  "csvData (updateHistory t l s) = csvData s \<and> fileName (updateHistory t l s) = fileName s
   \<and> isLoading (updateHistory t l s) = isLoading s"
  by (simp add: updateHistory_def Let_def)

text \<open>With 50 entries and the cursor on the last, a record drops the first entry.\<close>

lemma updateHistory_full_log:
  assumes "length (history s) = 50" and "currentHistoryIndex s = 49"
  shows "history (updateHistory t l s) = tl (history s) @ [\<lparr>hs_csvData = t, hs_fileName = l\<rparr>]"
    and "currentHistoryIndex (updateHistory t l s) = 49"
proof -
  from assms(1) have ne: "history s \<noteq> []" by auto
  from assms have "history (updateHistory t l s) =
      tl (history s @ [\<lparr>hs_csvData = t, hs_fileName = l\<rparr>])"
    by (simp add: updateHistory_history Let_def)
  with ne show h: "history (updateHistory t l s) =
      tl (history s) @ [\<lparr>hs_csvData = t, hs_fileName = l\<rparr>]"
    by simp
  from assms(1) show "currentHistoryIndex (updateHistory t l s) = 49"
    by (simp add: updateHistory_cursor [of t l s] h)
qed

lemma updateHistory_length_bound:
  assumes "- 1 \<le> currentHistoryIndex s" and "length (history s) \<le> 50"
  shows "length (history (updateHistory t l s)) \<le> 50"
  using assms by (auto simp: updateHistory_history Let_def min_def)

text \<open>
  Claim C1. For every log whose cursor is \<open>-1\<close> (empty log) or an index, recording
  a snapshot keeps the entries up to the cursor, drops those after it, appends the new
  \<open>{table, label}\<close> entry, drops the oldest entry when that makes more than 50, and
  sets the cursor to the last index; the table and the file name are not touched by
  \<open>updateHistory\<close> itself. In particular, from entries \<open>[A, B, C]\<close> at cursor 2, undo
  moves to cursor 1 and recording \<open>D\<close> gives \<open>[A, B, D]\<close> at cursor 2, where redo is
  refused.
\<close>

theorem updateHistory_truncates_appends_evicts:
  "(- 1 \<le> currentHistoryIndex s \<longrightarrow>
      (let appended = take (nat (currentHistoryIndex s + 1)) (history s) @
                      [\<lparr>hs_csvData = t, hs_fileName = l\<rparr>];
           s' = updateHistory t l s
       in history s' = (if length appended > 50 then tl appended else appended) \<and>
          currentHistoryIndex s' = int (length (history s')) - 1 \<and>
          csvData s' = csvData s \<and> fileName s' = fileName s))
   \<and> (history s0 = [A, B, C] \<and> currentHistoryIndex s0 = 2 \<longrightarrow>
        (\<exists>s1. handleUndo s0 = Inr (s1, Undone) \<and> currentHistoryIndex s1 = 1 \<and>
           (let s2 = updateHistory td ld s1
            in history s2 = [A, B, \<lparr>hs_csvData = td, hs_fileName = ld\<rparr>] \<and>
               currentHistoryIndex s2 = 2 \<and> \<not> canRedo s2 \<and>
               handleRedo s2 = Inr (s2, CannotRedo))))"
proof (intro conjI impI)
  assume "- 1 \<le> currentHistoryIndex s"
  then show "let appended = take (nat (currentHistoryIndex s + 1)) (history s) @
                      [\<lparr>hs_csvData = t, hs_fileName = l\<rparr>];
           s' = updateHistory t l s
       in history s' = (if length appended > 50 then tl appended else appended) \<and>
          currentHistoryIndex s' = int (length (history s')) - 1 \<and>
          csvData s' = csvData s \<and> fileName s' = fileName s"
    using updateHistory_history [of s t l] updateHistory_cursor [of t l s] updateHistory_frame [of t l s]
    by (simp add: Let_def)
next
  assume a: "history s0 = [A, B, C] \<and> currentHistoryIndex s0 = 2"
  define s1 where "s1 = s0\<lparr>csvData := hs_csvData B, fileName := hs_fileName B, currentHistoryIndex := 1\<rparr>"
  have u: "handleUndo s0 = Inr (s1, Undone)"
    using a by (simp add: handleUndo_def js_index_def s1_def)
  have h1: "history s1 = [A, B, C]" "currentHistoryIndex s1 = 1"
    using a by (simp_all add: s1_def)
  have h2: "history (updateHistory td ld s1) = [A, B, \<lparr>hs_csvData = td, hs_fileName = ld\<rparr>]"
    using h1 by (simp add: updateHistory_history)
  have c2: "currentHistoryIndex (updateHistory td ld s1) = 2"
    using h2 updateHistory_cursor [of td ld s1] by simp
  show "\<exists>s1. handleUndo s0 = Inr (s1, Undone) \<and> currentHistoryIndex s1 = 1 \<and>
           (let s2 = updateHistory td ld s1
            in history s2 = [A, B, \<lparr>hs_csvData = td, hs_fileName = ld\<rparr>] \<and>
               currentHistoryIndex s2 = 2 \<and> \<not> canRedo s2 \<and>
               handleRedo s2 = Inr (s2, CannotRedo))"
    using u h1 h2 c2 by (auto simp: Let_def canRedo_def handleRedo_def)
qed


theorem updateHistory_truncates_appends_evicts_witness:
  "- 1 \<le> currentHistoryIndex (editor_at [entry_of ''A'', entry_of ''B'', entry_of ''C''] 2) \<and>
   history (editor_at [entry_of ''A'', entry_of ''B'', entry_of ''C''] 2) =
     [entry_of ''A'', entry_of ''B'', entry_of ''C''] \<and>
   currentHistoryIndex (editor_at [entry_of ''A'', entry_of ''B'', entry_of ''C''] 2) = 2 \<and>
   history (updateHistory (hs_csvData (entry_of ''D'')) (hs_fileName (entry_of ''D''))
              (editor_at [entry_of ''A'', entry_of ''B'', entry_of ''C''] 2)) =
     [entry_of ''A'', entry_of ''B'', entry_of ''C'', entry_of ''D''] \<and>
   (\<exists>s1. handleUndo (editor_at [entry_of ''A'', entry_of ''B'', entry_of ''C''] 2) = Inr (s1, Undone) \<and>
         history (updateHistory (hs_csvData (entry_of ''D'')) (hs_fileName (entry_of ''D'')) s1) =
           [entry_of ''A'', entry_of ''B'', entry_of ''D''])"
  using updateHistory_truncates_appends_evicts
    [of "editor_at [entry_of ''A'', entry_of ''B'', entry_of ''C''] 2"
        "hs_csvData (entry_of ''D'')" "hs_fileName (entry_of ''D'')"
        "editor_at [entry_of ''A'', entry_of ''B'', entry_of ''C''] 2"
        "entry_of ''A''" "entry_of ''B''" "entry_of ''C''"
        "hs_csvData (entry_of ''D'')" "hs_fileName (entry_of ''D'')"]
  by (auto simp: editor_at_def entry_of_def Let_def)

lemma js_index_nth: "0 \<le> i \<Longrightarrow> i < int (length xs) \<Longrightarrow> js_index xs i = Some (xs ! nat i)"
  by (simp add: js_index_def)

text \<open>
  Claim C2. With the cursor on an entry, undo is refused exactly at cursor 0 and redo
  exactly at the last entry; a refused undo or redo returns the state as it was; a
  successful one keeps the entries, moves the cursor by one and shows the table and the
  file name stored at the new cursor.
\<close>

theorem undo_redo_move_cursor_only:
  "cursor_in_bounds s \<Longrightarrow>
   (\<exists>s' t. handleUndo s = Inr (s', t) \<and>
        history s' = history s \<and> isLoading s' = isLoading s \<and>
        (t = CannotUndo) = (currentHistoryIndex s = 0) \<and>
        (currentHistoryIndex s = 0 \<longrightarrow> s' = s) \<and>
        (currentHistoryIndex s \<noteq> 0 \<longrightarrow>
           t = Undone \<and> currentHistoryIndex s' = currentHistoryIndex s - 1 \<and>
           csvData s' = hs_csvData (history s ! nat (currentHistoryIndex s')) \<and>
           fileName s' = hs_fileName (history s ! nat (currentHistoryIndex s')))) \<and>
   (\<exists>s' t. handleRedo s = Inr (s', t) \<and>
        history s' = history s \<and> isLoading s' = isLoading s \<and>
        (t = CannotRedo) = (currentHistoryIndex s = int (length (history s)) - 1) \<and>
        (currentHistoryIndex s = int (length (history s)) - 1 \<longrightarrow> s' = s) \<and>
        (currentHistoryIndex s \<noteq> int (length (history s)) - 1 \<longrightarrow>
           t = Redone \<and> currentHistoryIndex s' = currentHistoryIndex s + 1 \<and>
           csvData s' = hs_csvData (history s ! nat (currentHistoryIndex s')) \<and>
           fileName s' = hs_fileName (history s ! nat (currentHistoryIndex s'))))"
proof (intro conjI)
  assume b: "cursor_in_bounds s"
  show "\<exists>s' t. handleUndo s = Inr (s', t) \<and>
        history s' = history s \<and> isLoading s' = isLoading s \<and>
        (t = CannotUndo) = (currentHistoryIndex s = 0) \<and>
        (currentHistoryIndex s = 0 \<longrightarrow> s' = s) \<and>
        (currentHistoryIndex s \<noteq> 0 \<longrightarrow>
           t = Undone \<and> currentHistoryIndex s' = currentHistoryIndex s - 1 \<and>
           csvData s' = hs_csvData (history s ! nat (currentHistoryIndex s')) \<and>
           fileName s' = hs_fileName (history s ! nat (currentHistoryIndex s')))"
  proof (cases "currentHistoryIndex s = 0")
    case True
    then show ?thesis by (simp add: handleUndo_def)
  next
    case False
    with b have "js_index (history s) (currentHistoryIndex s - 1) =
                 Some (history s ! nat (currentHistoryIndex s - 1))"
      by (intro js_index_nth) (auto simp: cursor_in_bounds_def)
    with False b show ?thesis
      by (simp add: handleUndo_def cursor_in_bounds_def Let_def)
  qed
next
  assume b: "cursor_in_bounds s"
  show "\<exists>s' t. handleRedo s = Inr (s', t) \<and>
        history s' = history s \<and> isLoading s' = isLoading s \<and>
        (t = CannotRedo) = (currentHistoryIndex s = int (length (history s)) - 1) \<and>
        (currentHistoryIndex s = int (length (history s)) - 1 \<longrightarrow> s' = s) \<and>
        (currentHistoryIndex s \<noteq> int (length (history s)) - 1 \<longrightarrow>
           t = Redone \<and> currentHistoryIndex s' = currentHistoryIndex s + 1 \<and>
           csvData s' = hs_csvData (history s ! nat (currentHistoryIndex s')) \<and>
           fileName s' = hs_fileName (history s ! nat (currentHistoryIndex s')))"
  proof (cases "currentHistoryIndex s = int (length (history s)) - 1")
    case True
    then show ?thesis by (simp add: handleRedo_def)
  next
    case False
    with b have "js_index (history s) (currentHistoryIndex s + 1) =
                 Some (history s ! nat (currentHistoryIndex s + 1))"
      by (intro js_index_nth) (auto simp: cursor_in_bounds_def)
    with False b show ?thesis
      by (simp add: handleRedo_def cursor_in_bounds_def Let_def)
  qed
qed

theorem undo_redo_move_cursor_only_witness:
  "cursor_in_bounds (editor_at [entry_of ''A'', entry_of ''B'', entry_of ''C''] 1) \<and>
   (\<exists>s'. handleUndo (editor_at [entry_of ''A'', entry_of ''B'', entry_of ''C''] 1) = Inr (s', Undone) \<and>
         history s' = [entry_of ''A'', entry_of ''B'', entry_of ''C''] \<and>
         currentHistoryIndex s' = 0 \<and> csvData s' = hs_csvData (entry_of ''A'')) \<and>
   (\<exists>s'. handleRedo (editor_at [entry_of ''A'', entry_of ''B'', entry_of ''C''] 1) = Inr (s', Redone) \<and>
         history s' = [entry_of ''A'', entry_of ''B'', entry_of ''C''] \<and>
         currentHistoryIndex s' = 2 \<and> csvData s' = hs_csvData (entry_of ''C'')) \<and>
   cursor_in_bounds (editor_at [entry_of ''A''] 0) \<and>
   handleUndo (editor_at [entry_of ''A''] 0) = Inr (editor_at [entry_of ''A''] 0, CannotUndo) \<and>
   handleRedo (editor_at [entry_of ''A''] 0) = Inr (editor_at [entry_of ''A''] 0, CannotRedo)"
proof -
  have b: "cursor_in_bounds (editor_at [entry_of ''A'', entry_of ''B'', entry_of ''C''] 1)"
    by (simp add: cursor_in_bounds_def editor_at_def)
  have b0: "cursor_in_bounds (editor_at [entry_of ''A''] 0)"
    by (simp add: cursor_in_bounds_def editor_at_def)
  have c0: "currentHistoryIndex (editor_at [entry_of ''A''] 0) = 0"
    "int (length (history (editor_at [entry_of ''A''] 0))) - 1 = 0"
    by (simp_all add: editor_at_def)
  from undo_redo_move_cursor_only [OF b0] c0
  have "handleUndo (editor_at [entry_of ''A''] 0) = Inr (editor_at [entry_of ''A''] 0, CannotUndo)"
    and "handleRedo (editor_at [entry_of ''A''] 0) = Inr (editor_at [entry_of ''A''] 0, CannotRedo)"
    by auto
  with b b0 undo_redo_move_cursor_only [OF b] show ?thesis
    by (auto simp: editor_at_def)
qed

lemma updateHistory_previous_entry:
  assumes "cursor_in_bounds s"
  shows "2 \<le> length (history (updateHistory t l s)) \<and>
         history (updateHistory t l s) ! (length (history (updateHistory t l s)) - 2) =
           history s ! nat (currentHistoryIndex s)"
proof -
  define c where "c = nat (currentHistoryIndex s)"
  define e where "e = \<lparr>hs_csvData = t, hs_fileName = l\<rparr>"
  define appended where "appended = take (Suc c) (history s) @ [e]"
  from assms have c: "currentHistoryIndex s = int c" "c < length (history s)"
    by (auto simp: cursor_in_bounds_def c_def)
  have len: "length appended = c + 2"
    using c by (simp add: appended_def)
  have at_c: "appended ! c = history s ! c"
    using c by (simp add: appended_def nth_append)
  have h: "history (updateHistory t l s) = (if length appended > 50 then tl appended else appended)"
    using c updateHistory_history [of s t l]
    by (simp add: appended_def e_def Let_def nat_add_distrib)
  show ?thesis
  proof (cases "length appended > 50")
    case True
    with len have "1 \<le> c" by simp
    with True h len at_c show ?thesis
      by (simp add: nth_tl c_def [symmetric])
  next
    case False
    with h len at_c show ?thesis
      by (simp add: c_def [symmetric])
  qed
qed

lemma updateHistory_last_entry:
  assumes "- 1 \<le> currentHistoryIndex s"
  shows "history (updateHistory t l s) \<noteq> [] \<and>
         last (history (updateHistory t l s)) = \<lparr>hs_csvData = t, hs_fileName = l\<rparr>"
proof -
  define e where "e = \<lparr>hs_csvData = t, hs_fileName = l\<rparr>"
  define kept where "kept = take (nat (currentHistoryIndex s + 1)) (history s)"
  have h: "history (updateHistory t l s) = (if length (kept @ [e]) > 50 then tl (kept @ [e]) else kept @ [e])"
    using assms updateHistory_history [of s t l] by (simp add: kept_def e_def Let_def)
  show ?thesis
  proof (cases "length (kept @ [e]) > 50")
    case True
    then have "kept \<noteq> []" by auto
    then have "tl (kept @ [e]) = tl kept @ [e]" by simp
    with True h show ?thesis by (simp add: e_def)
  next
    case False
    with h show ?thesis by (simp add: e_def)
  qed
qed

lemma undo_after_updateHistory:
  assumes "cursor_in_bounds s" and "history s0 = history s"
    and "currentHistoryIndex s0 = currentHistoryIndex s"
  shows "\<exists>s'. handleUndo (updateHistory t l s0) = Inr (s', Undone) \<and>
              csvData s' = hs_csvData (history s ! nat (currentHistoryIndex s))"
proof -
  from assms have b0: "cursor_in_bounds s0"
    by (simp add: cursor_in_bounds_def)
  let ?u = "updateHistory t l s0"
  from updateHistory_previous_entry [OF b0, of t l] assms
  have len: "2 \<le> length (history ?u)"
    and prev: "history ?u ! (length (history ?u) - 2) = history s ! nat (currentHistoryIndex s)"
    by simp_all
  have cur: "currentHistoryIndex ?u = int (length (history ?u)) - 1"
    by (rule updateHistory_cursor)
  from len cur have idx: "js_index (history ?u) (currentHistoryIndex ?u - 1) =
      Some (history ?u ! nat (currentHistoryIndex ?u - 1))"
    by (intro js_index_nth) auto
  from len cur have n: "nat (currentHistoryIndex ?u - 1) = length (history ?u) - 2"
    by simp
  from len cur have pos: "currentHistoryIndex ?u > 0" by simp
  show ?thesis
    using idx pos prev by (simp add: handleUndo_def Let_def n)
qed

text \<open>
  Claim C3, as the code has it. In every state whose cursor is on an entry that stores
  the table on screen (every state once something has been recorded), recording a new
  table and undoing at once shows the table that was on screen before the record,
  equal as a value; this holds for \<open>updateDataWithHistory\<close> and for the grid's
  \<open>handleDataChange\<close>, also when the record evicts the oldest entry. With the cursor
  above 0, undo followed by redo shows the table that was on screen before the undo and
  leaves entries and cursor as they were.
\<close>

theorem record_undo_and_undo_redo_restore:
  "cursor_in_bounds s \<Longrightarrow> table_at_cursor s \<Longrightarrow>
   (\<exists>s'. handleUndo (updateDataWithHistory t n s) = Inr (s', Undone) \<and> csvData s' = csvData s) \<and>
   (csvData s \<noteq> None \<longrightarrow>
      (\<exists>s'. handleUndo (handleDataChange rows s) = Inr (s', Undone) \<and> csvData s' = csvData s)) \<and>
   (0 < currentHistoryIndex s \<longrightarrow>
      (\<exists>s1 s2. handleUndo s = Inr (s1, Undone) \<and> handleRedo s1 = Inr (s2, Redone) \<and>
               csvData s2 = csvData s \<and> history s2 = history s \<and>
               currentHistoryIndex s2 = currentHistoryIndex s))"
proof (intro conjI impI)
  assume b: "cursor_in_bounds s" and a: "table_at_cursor s"
  from b have "js_index (history s) (currentHistoryIndex s) =
               Some (history s ! nat (currentHistoryIndex s))"
    by (intro js_index_nth) (simp_all add: cursor_in_bounds_def)
  with a have cur: "hs_csvData (history s ! nat (currentHistoryIndex s)) = csvData s"
    by (simp add: table_at_cursor_def)
  show "\<exists>s'. handleUndo (updateDataWithHistory t n s) = Inr (s', Undone) \<and> csvData s' = csvData s"
  proof (cases n)
    case None
    with undo_after_updateHistory [OF b, of "s\<lparr>csvData := t\<rparr>" t "fileName s"] cur
    show ?thesis by (simp add: updateDataWithHistory_def)
  next
    case (Some f)
    with undo_after_updateHistory [OF b, of "s\<lparr>csvData := t, fileName := f\<rparr>" t f] cur
    show ?thesis by (simp add: updateDataWithHistory_def)
  qed
  {
    assume "csvData s \<noteq> None"
    then obtain d where d: "csvData s = Some d" by auto
    with undo_after_updateHistory
           [OF b, of "s\<lparr>csvData := Some (d\<lparr>data := rows\<rparr>)\<rparr>" "Some (d\<lparr>data := rows\<rparr>)" "fileName s"] cur
    show "\<exists>s'. handleUndo (handleDataChange rows s) = Inr (s', Undone) \<and> csvData s' = csvData s"
      by (simp add: handleDataChange_def Let_def)
  }
  {
    assume p: "0 < currentHistoryIndex s"
    with b have i1: "js_index (history s) (currentHistoryIndex s - 1) =
                     Some (history s ! nat (currentHistoryIndex s - 1))"
      by (intro js_index_nth) (simp_all add: cursor_in_bounds_def)
    define s1 where "s1 = s\<lparr>csvData := hs_csvData (history s ! nat (currentHistoryIndex s - 1)),
                            fileName := hs_fileName (history s ! nat (currentHistoryIndex s - 1)),
                            currentHistoryIndex := currentHistoryIndex s - 1\<rparr>"
    have u: "handleUndo s = Inr (s1, Undone)"
      using p i1 by (simp add: handleUndo_def Let_def s1_def)
    from b have i2: "js_index (history s1) (currentHistoryIndex s1 + 1) =
                     Some (history s ! nat (currentHistoryIndex s))"
      by (simp add: js_index_def s1_def cursor_in_bounds_def)
    from b have lt: "currentHistoryIndex s1 < int (length (history s1)) - 1"
      by (simp add: s1_def cursor_in_bounds_def)
    have "\<exists>s2. handleRedo s1 = Inr (s2, Redone) \<and> csvData s2 = csvData s \<and>
               history s2 = history s \<and> currentHistoryIndex s2 = currentHistoryIndex s"
      using i2 lt cur by (simp add: handleRedo_def Let_def) (simp add: s1_def)
    with u show "\<exists>s1 s2. handleUndo s = Inr (s1, Undone) \<and> handleRedo s1 = Inr (s2, Redone) \<and>
               csvData s2 = csvData s \<and> history s2 = history s \<and>
               currentHistoryIndex s2 = currentHistoryIndex s"
      by blast
  }
qed

theorem record_undo_and_undo_redo_restore_witness:
  "cursor_in_bounds (editor_at [entry_of ''A'', entry_of ''B''] 1) \<and>
   table_at_cursor (editor_at [entry_of ''A'', entry_of ''B''] 1) \<and>
   csvData (editor_at [entry_of ''A'', entry_of ''B''] 1) \<noteq> None \<and>
   0 < currentHistoryIndex (editor_at [entry_of ''A'', entry_of ''B''] 1) \<and>
   (\<exists>s'. handleUndo (updateDataWithHistory (hs_csvData (entry_of ''C'')) None
                       (editor_at [entry_of ''A'', entry_of ''B''] 1)) = Inr (s', Undone) \<and>
         csvData s' = hs_csvData (entry_of ''B'')) \<and>
   (\<exists>s'. handleUndo (handleDataChange [[''C'']] (editor_at [entry_of ''A'', entry_of ''B''] 1))
           = Inr (s', Undone) \<and>
         csvData s' = hs_csvData (entry_of ''B'')) \<and>
   (\<exists>s1 s2. handleUndo (editor_at [entry_of ''A'', entry_of ''B''] 1) = Inr (s1, Undone) \<and>
            handleRedo s1 = Inr (s2, Redone) \<and> csvData s2 = hs_csvData (entry_of ''B''))"
proof -
  have b: "cursor_in_bounds (editor_at [entry_of ''A'', entry_of ''B''] 1)"
    by (simp add: cursor_in_bounds_def editor_at_def)
  have a: "table_at_cursor (editor_at [entry_of ''A'', entry_of ''B''] 1)"
    by (simp add: table_at_cursor_def editor_at_def js_index_def)
  have n: "csvData (editor_at [entry_of ''A'', entry_of ''B''] 1) \<noteq> None"
    by (simp add: editor_at_def entry_of_def)
  have p: "0 < currentHistoryIndex (editor_at [entry_of ''A'', entry_of ''B''] 1)"
    by (simp add: editor_at_def)
  have c: "csvData (editor_at [entry_of ''A'', entry_of ''B''] 1) = hs_csvData (entry_of ''B'')"
    by (simp add: editor_at_def)
  from record_undo_and_undo_redo_restore
         [OF b a, of "hs_csvData (entry_of ''C'')" None "[[''C'']]"] n p
  show ?thesis
    unfolding c using b a n p by blast
qed

text \<open>
  In the initial state the log is empty: the first record (here the template) becomes
  entry 0, undo is refused there, and the table stays the recorded one instead of going
  back to the empty screen.
\<close>

theorem record_undo_from_empty_log_counterexample:
  "handleUndo (fst (createTemplate initial_editor)) =
     Inr (fst (createTemplate initial_editor), CannotUndo) \<and>
   csvData (fst (createTemplate initial_editor)) \<noteq> csvData initial_editor"
  by (simp add: createTemplate_def initial_editor_def updateDataWithHistory_def
      updateHistory_def js_slice_def js_rel_index_def js_push_def handleUndo_def Let_def)

section \<open>Properties of applying the analysis response\<close>

lemma processWithAI_parsed:
  "processWithAI (Parsed (Some r)) (m, s) =
     (if table r \<noteq> [] then
        (if needsModification r then
           ((m\<lparr>isProcessing := False, analysisResult := message r\<rparr>,
             onDataUpdate \<lparr>data = tl (table r), headers = hd (table r)\<rparr> s), AIUpdated)
         else ((m\<lparr>isProcessing := False, analysisResult := message r\<rparr>, s), AINoChangeNeeded))
      else ((m\<lparr>isProcessing := False, analysisResult := []\<rparr>, s), AIInvalidFormat))"
  by (simp add: processWithAI_def Let_def js_slice_from_1)

lemma processWithAI_no_value:
  "snd (fst (processWithAI Threw (m, s))) = s"
  "snd (fst (processWithAI (Parsed None) (m, s))) = s"
  by (simp_all add: processWithAI_def Let_def)

text \<open>
  Claim C4. When the response's \<open>needsModification\<close> is false, the editor state (table,
  file name, history, cursor) after \<open>processWithAI\<close> is the one before it, and for a
  response with a non-empty table the analysis message is shown and the toast reports
  that no change was needed. Whenever \<open>processWithAI\<close> changes the editor state, the
  response was a parsed value with \<open>needsModification\<close> true and a non-empty table.
\<close>

theorem no_change_signal_records_nothing:
  "(\<not> needsModification r \<longrightarrow>
      snd (fst (processWithAI (Parsed (Some r)) (m, s))) = s \<and>
      (table r \<noteq> [] \<longrightarrow>
         analysisResult (fst (fst (processWithAI (Parsed (Some r)) (m, s)))) = message r \<and>
         snd (processWithAI (Parsed (Some r)) (m, s)) = AINoChangeNeeded)) \<and>
   (snd (fst (processWithAI response (m, s))) \<noteq> s \<longrightarrow>
      (\<exists>r'. response = Parsed (Some r') \<and> needsModification r' \<and> table r' \<noteq> []))"
proof (intro conjI impI)
  assume "\<not> needsModification r"
  then show "snd (fst (processWithAI (Parsed (Some r)) (m, s))) = s"
    by (simp add: processWithAI_parsed)
next
  assume "\<not> needsModification r" and "table r \<noteq> []"
  then show "analysisResult (fst (fst (processWithAI (Parsed (Some r)) (m, s)))) = message r"
    and "snd (processWithAI (Parsed (Some r)) (m, s)) = AINoChangeNeeded"
    by (simp_all add: processWithAI_parsed)
next
  assume ch: "snd (fst (processWithAI response (m, s))) \<noteq> s"
  show "\<exists>r'. response = Parsed (Some r') \<and> needsModification r' \<and> table r' \<noteq> []"
  proof (cases response)
    case Threw
    with ch show ?thesis by (simp add: processWithAI_no_value)
  next
    case (Parsed v)
    show ?thesis
    proof (cases v)
      case None
      with Parsed ch show ?thesis by (simp add: processWithAI_no_value)
    next
      case (Some r')
      with Parsed ch show ?thesis
        by (simp add: processWithAI_parsed split: if_splits)
    qed
  qed
qed

theorem no_change_signal_records_nothing_witness:
  "\<not> needsModification (response_of False [[''h''], [''A'']]) \<and>
   table (response_of False [[''h''], [''A'']]) \<noteq> [] \<and>
   processWithAI (Parsed (Some (response_of False [[''h''], [''A'']])))
       (idle_modifier, editor_at [entry_of ''A''] 0) =
     ((\<lparr>analysisResult = ''checked'', isProcessing = False\<rparr>, editor_at [entry_of ''A''] 0),
      AINoChangeNeeded) \<and>
   snd (fst (processWithAI (Parsed (Some (response_of True [[''h''], [''B'']])))
       (idle_modifier, editor_at [entry_of ''A''] 0))) \<noteq> editor_at [entry_of ''A''] 0"
proof -
  have n: "\<not> needsModification (response_of False [[''h''], [''A'']])"
    and t: "table (response_of False [[''h''], [''A'']]) \<noteq> []"
    by (simp_all add: response_of_def)
  have ch: "snd (fst (processWithAI (Parsed (Some (response_of True [[''h''], [''B'']])))
       (idle_modifier, editor_at [entry_of ''A''] 0))) \<noteq> editor_at [entry_of ''A''] 0"
    by (simp add: processWithAI_parsed response_of_def onDataUpdate_def
        updateDataWithHistory_def updateHistory_def Let_def editor_at_def entry_of_def)
  from no_change_signal_records_nothing
         [of "response_of False [[''h''], [''A'']]" idle_modifier "editor_at [entry_of ''A''] 0"
             "Parsed (Some (response_of True [[''h''], [''B'']]))"] n t
  have "snd (fst (processWithAI (Parsed (Some (response_of False [[''h''], [''A'']])))
                    (idle_modifier, editor_at [entry_of ''A''] 0))) = editor_at [entry_of ''A''] 0"
    and "analysisResult (fst (fst (processWithAI (Parsed (Some (response_of False [[''h''], [''A'']])))
                    (idle_modifier, editor_at [entry_of ''A''] 0)))) = ''checked''"
    and "snd (processWithAI (Parsed (Some (response_of False [[''h''], [''A'']])))
                    (idle_modifier, editor_at [entry_of ''A''] 0)) = AINoChangeNeeded"
    by (simp_all add: response_of_def)
  moreover have "isProcessing (fst (fst (processWithAI (Parsed (Some (response_of False [[''h''], [''A'']])))
                    (idle_modifier, editor_at [entry_of ''A''] 0)))) = False"
    by (simp add: processWithAI_parsed)
  ultimately have "processWithAI (Parsed (Some (response_of False [[''h''], [''A'']])))
       (idle_modifier, editor_at [entry_of ''A''] 0) =
     ((\<lparr>analysisResult = ''checked'', isProcessing = False\<rparr>, editor_at [entry_of ''A''] 0),
      AINoChangeNeeded)"
    by (cases "processWithAI (Parsed (Some (response_of False [[''h''], [''A'']])))
                    (idle_modifier, editor_at [entry_of ''A''] 0)") auto
  with n t ch show ?thesis by blast
qed

text \<open>
  Claim C6. A response whose table is empty is reported as an invalid format and leaves
  the editor state (table and history) as it was; a response to be applied whose table
  is a single row gives a table with that row as headers and no data rows.
\<close>

theorem reconcile_payload_bounds:
  "(table r = [] \<longrightarrow>
      snd (fst (processWithAI (Parsed (Some r)) (m, s))) = s \<and>
      snd (processWithAI (Parsed (Some r)) (m, s)) = AIInvalidFormat) \<and>
   (table r = [row] \<and> needsModification r \<longrightarrow>
      csvData (snd (fst (processWithAI (Parsed (Some r)) (m, s)))) =
        Some \<lparr>data = [], headers = row\<rparr> \<and>
      snd (processWithAI (Parsed (Some r)) (m, s)) = AIUpdated)"
  by (simp add: processWithAI_parsed onDataUpdate_def updateDataWithHistory_def
      updateHistory_frame)

theorem reconcile_payload_bounds_witness:
  "table (response_of True []) = [] \<and>
   table (response_of True [[''h1'', ''h2'']]) = [[''h1'', ''h2'']] \<and>
   needsModification (response_of True [[''h1'', ''h2'']]) \<and>
   snd (processWithAI (Parsed (Some (response_of True [])))
          (idle_modifier, editor_at [entry_of ''A''] 0)) = AIInvalidFormat \<and>
   snd (fst (processWithAI (Parsed (Some (response_of True [])))
          (idle_modifier, editor_at [entry_of ''A''] 0))) = editor_at [entry_of ''A''] 0 \<and>
   csvData (snd (fst (processWithAI (Parsed (Some (response_of True [[''h1'', ''h2'']])))
          (idle_modifier, editor_at [entry_of ''A''] 0)))) =
     Some \<lparr>data = [], headers = [''h1'', ''h2'']\<rparr>"
  using reconcile_payload_bounds
          [of "response_of True []" idle_modifier "editor_at [entry_of ''A''] 0"]
        reconcile_payload_bounds
          [of "response_of True [[''h1'', ''h2'']]" idle_modifier
              "editor_at [entry_of ''A''] 0" "[''h1'', ''h2'']"]
  by (simp add: response_of_def)

lemma normalize_row_take_pad:
  "normalize_row n row = take n (row @ replicate (n - length row) [])"
  by (simp add: normalize_row_def js_slice_prefix)

lemma length_normalize_row: "length (normalize_row n row) = n"
  by (simp add: normalize_row_take_pad)

lemma normalize_effect_after_sync:
  assumes "\<not> isUpdating g"
  shows "normalize_effect (sync_effect \<lparr>data = rows, headers = hdr\<rparr> g) =
           (let g1 = g\<lparr>internalHeaders := hdr, internalData := rows\<rparr>;
                normalizedData = map (normalize_row (length hdr)) rows
            in if \<exists>row \<in> set rows. length row \<noteq> length hdr
               then (g1\<lparr>internalData := normalizedData\<rparr>, [OnDataChange normalizedData])
               else (g1, []))"
  using assms
  by (cases rows) (auto simp: normalize_effect_def sync_effect_def Let_def list_ex_iff)

lemma processWithAI_applied:
  assumes "needsModification r" and "table r = hdr # rows"
  shows "snd (fst (processWithAI (Parsed (Some r)) (m, s))) =
           updateHistory (Some \<lparr>data = rows, headers = hdr\<rparr>) (fileName s)
             (s\<lparr>csvData := Some \<lparr>data = rows, headers = hdr\<rparr>\<rparr>)"
  using assms
  by (simp add: processWithAI_parsed onDataUpdate_def updateDataWithHistory_def)

lemma updateHistory_cursor_in_bounds:
  assumes "- 1 \<le> currentHistoryIndex s"
  shows "cursor_in_bounds (updateHistory t l s)"
  using updateHistory_last_entry [OF assms, of t l] updateHistory_cursor [of t l s]
  by (cases "history (updateHistory t l s)") (simp_all add: cursor_in_bounds_def)

lemma updateHistory_entry_at_cursor:
  assumes "- 1 \<le> currentHistoryIndex s"
  shows "history (updateHistory t l s) ! nat (currentHistoryIndex (updateHistory t l s)) =
           \<lparr>hs_csvData = t, hs_fileName = l\<rparr>"
proof -
  from updateHistory_last_entry [OF assms, of t l]
  have ne: "history (updateHistory t l s) \<noteq> []"
    and la: "last (history (updateHistory t l s)) = \<lparr>hs_csvData = t, hs_fileName = l\<rparr>"
    by simp_all
  have "nat (currentHistoryIndex (updateHistory t l s)) = length (history (updateHistory t l s)) - 1"
    using updateHistory_cursor [of t l s] by simp
  with ne la show ?thesis by (simp add: last_conv_nth)
qed

text \<open>
  Claim C5, as the code has it. An applied response is accepted and recorded as
  received: the first payload row becomes the headers and the remaining rows the data,
  with their widths untouched, and that table is the entry at the cursor. Cutting or
  right-padding each row to the header count is done afterwards by the grid: once it has
  taken the new table over, its row-width effect stores the normalised rows and passes
  them up if some row had another width, and \<open>handleDataChange\<close> then records the
  normalised table as a further entry after the received one. For headers \<open>[h1]\<close> the
  row \<open>[a, b]\<close> is normalised to \<open>[a]\<close>.
\<close>

theorem reconcile_records_payload_as_received:
  "(needsModification r \<and> table r = hdr # rows \<and> - 1 \<le> currentHistoryIndex s \<longrightarrow>
      (let s1 = snd (fst (processWithAI (Parsed (Some r)) (m, s)));
           received = \<lparr>data = rows, headers = hdr\<rparr>;
           normalizedData = map (\<lambda>row. take (length hdr) (row @ replicate (length hdr - length row) [])) rows;
           s2 = handleDataChange normalizedData s1
       in csvData s1 = Some received \<and>
          last (history s1) = \<lparr>hs_csvData = Some received, hs_fileName = fileName s\<rparr> \<and>
          currentHistoryIndex s1 = int (length (history s1)) - 1 \<and>
          csvData s2 = Some \<lparr>data = normalizedData, headers = hdr\<rparr> \<and>
          last (history s2) =
            \<lparr>hs_csvData = Some \<lparr>data = normalizedData, headers = hdr\<rparr>, hs_fileName = fileName s\<rparr> \<and>
          history s2 ! (length (history s2) - 2) =
            \<lparr>hs_csvData = Some received, hs_fileName = fileName s\<rparr>)) \<and>
   (\<not> isUpdating g \<longrightarrow>
      (let normalizedData = map (\<lambda>row. take (length hdr) (row @ replicate (length hdr - length row) [])) rows;
           g1 = g\<lparr>internalHeaders := hdr, internalData := rows\<rparr>
       in normalize_effect (sync_effect \<lparr>data = rows, headers = hdr\<rparr> g) =
            (if \<exists>row \<in> set rows. length row \<noteq> length hdr
             then (g1\<lparr>internalData := normalizedData\<rparr>, [OnDataChange normalizedData])
             else (g1, [])) \<and>
          (\<forall>row \<in> set normalizedData. length row = length hdr))) \<and>
   normalize_row (length [''h1'']) [''a'', ''b''] = [''a'']"
proof (intro conjI impI)
  assume a: "needsModification r \<and> table r = hdr # rows \<and> - 1 \<le> currentHistoryIndex s"
  define received where "received = \<lparr>data = rows, headers = hdr\<rparr>"
  define nd where "nd = map (\<lambda>row. take (length hdr) (row @ replicate (length hdr - length row) [])) rows"
  define s0 where "s0 = s\<lparr>csvData := Some received\<rparr>"
  define s1 where "s1 = snd (fst (processWithAI (Parsed (Some r)) (m, s)))"
  define s2 where "s2 = handleDataChange nd s1"
  have c0: "- 1 \<le> currentHistoryIndex s0" using a by (simp add: s0_def)
  have s1: "s1 = updateHistory (Some received) (fileName s) s0"
    using a processWithAI_applied [of r hdr rows m s] by (simp add: s1_def s0_def received_def)
  have t1: "csvData s1 = Some received"
    by (simp add: s1 updateHistory_frame s0_def)
  have f1: "fileName s1 = fileName s"
    by (simp add: s1 updateHistory_frame s0_def)
  have l1: "last (history s1) = \<lparr>hs_csvData = Some received, hs_fileName = fileName s\<rparr>"
    using updateHistory_last_entry [OF c0] by (simp add: s1)
  have k1: "currentHistoryIndex s1 = int (length (history s1)) - 1"
    by (simp add: s1 updateHistory_cursor)
  have b1: "cursor_in_bounds s1"
    using updateHistory_cursor_in_bounds [OF c0] by (simp add: s1)
  have e1: "history s1 ! nat (currentHistoryIndex s1) =
              \<lparr>hs_csvData = Some received, hs_fileName = fileName s\<rparr>"
    using updateHistory_entry_at_cursor [OF c0] by (simp add: s1)
  define s1' where "s1' = s1\<lparr>csvData := Some \<lparr>data = nd, headers = hdr\<rparr>\<rparr>"
  have s2: "s2 = updateHistory (Some \<lparr>data = nd, headers = hdr\<rparr>) (fileName s) s1'"
    using t1 f1 by (simp add: s2_def handleDataChange_def Let_def received_def s1'_def)
  have b1': "cursor_in_bounds s1'" "history s1' = history s1"
      "currentHistoryIndex s1' = currentHistoryIndex s1"
    using b1 by (simp_all add: s1'_def cursor_in_bounds_def)
  then have c1': "- 1 \<le> currentHistoryIndex s1'"
    by (simp add: cursor_in_bounds_def)
  have t2: "csvData s2 = Some \<lparr>data = nd, headers = hdr\<rparr>"
    by (simp add: s2 updateHistory_frame s1'_def)
  have l2: "last (history s2) =
      \<lparr>hs_csvData = Some \<lparr>data = nd, headers = hdr\<rparr>, hs_fileName = fileName s\<rparr>"
    using updateHistory_last_entry [OF c1'] by (simp add: s2)
  have p2: "history s2 ! (length (history s2) - 2) =
      \<lparr>hs_csvData = Some received, hs_fileName = fileName s\<rparr>"
    using updateHistory_previous_entry [OF b1'(1)] b1'(2,3) e1 by (simp add: s2)
  show "let s1 = snd (fst (processWithAI (Parsed (Some r)) (m, s)));
           received = \<lparr>data = rows, headers = hdr\<rparr>;
           normalizedData = map (\<lambda>row. take (length hdr) (row @ replicate (length hdr - length row) [])) rows;
           s2 = handleDataChange normalizedData s1
       in csvData s1 = Some received \<and>
          last (history s1) = \<lparr>hs_csvData = Some received, hs_fileName = fileName s\<rparr> \<and>
          currentHistoryIndex s1 = int (length (history s1)) - 1 \<and>
          csvData s2 = Some \<lparr>data = normalizedData, headers = hdr\<rparr> \<and>
          last (history s2) =
            \<lparr>hs_csvData = Some \<lparr>data = normalizedData, headers = hdr\<rparr>, hs_fileName = fileName s\<rparr> \<and>
          history s2 ! (length (history s2) - 2) =
            \<lparr>hs_csvData = Some received, hs_fileName = fileName s\<rparr>"
    using t1 l1 k1 t2 l2 p2
    unfolding Let_def s1_def [symmetric] received_def [symmetric] nd_def [symmetric]
      s2_def [symmetric]
    by simp
next
  assume u: "\<not> isUpdating g"
  have eq: "map (normalize_row (length hdr)) rows =
            map (\<lambda>row. take (length hdr) (row @ replicate (length hdr - length row) [])) rows"
    by (simp add: normalize_row_take_pad)
  show "let normalizedData = map (\<lambda>row. take (length hdr) (row @ replicate (length hdr - length row) [])) rows;
           g1 = g\<lparr>internalHeaders := hdr, internalData := rows\<rparr>
       in normalize_effect (sync_effect \<lparr>data = rows, headers = hdr\<rparr> g) =
            (if \<exists>row \<in> set rows. length row \<noteq> length hdr
             then (g1\<lparr>internalData := normalizedData\<rparr>, [OnDataChange normalizedData])
             else (g1, [])) \<and>
          (\<forall>row \<in> set normalizedData. length row = length hdr)"
    using normalize_effect_after_sync [OF u, of rows hdr]
    by (auto simp: Let_def eq)
next
  show "normalize_row (length [''h1'']) [''a'', ''b''] = [''a'']"
    by (simp add: normalize_row_take_pad)
qed


theorem reconcile_records_payload_as_received_witness:
  "needsModification (response_of True [[''h1''], [''a'', ''b'']]) \<and>
   table (response_of True [[''h1''], [''a'', ''b'']]) = [''h1''] # [[''a'', ''b'']] \<and>
   - 1 \<le> currentHistoryIndex (editor_at [entry_of ''A''] 0) \<and>
   \<not> isUpdating (grid_of \<lparr>data = [[''A'']], headers = [''h'']\<rparr>) \<and>
   csvData (snd (fst (processWithAI (Parsed (Some (response_of True [[''h1''], [''a'', ''b'']])))
                        (idle_modifier, editor_at [entry_of ''A''] 0)))) =
     Some \<lparr>data = [[''a'', ''b'']], headers = [''h1'']\<rparr> \<and>
   normalize_effect (sync_effect \<lparr>data = [[''a'', ''b'']], headers = [''h1'']\<rparr>
                       (grid_of \<lparr>data = [[''A'']], headers = [''h'']\<rparr>)) =
     (grid_of \<lparr>data = [[''a'']], headers = [''h1'']\<rparr>, [OnDataChange [[''a'']]])"
proof -
  have h: "needsModification (response_of True [[''h1''], [''a'', ''b'']]) \<and>
           table (response_of True [[''h1''], [''a'', ''b'']]) = [''h1''] # [[''a'', ''b'']] \<and>
           - 1 \<le> currentHistoryIndex (editor_at [entry_of ''A''] 0)"
    by (simp add: response_of_def editor_at_def)
  have u: "\<not> isUpdating (grid_of \<lparr>data = [[''A'']], headers = [''h'']\<rparr>)"
    by (simp add: grid_of_def)
  note t = reconcile_records_payload_as_received
             [of "response_of True [[''h1''], [''a'', ''b'']]" "[''h1'']" "[[''a'', ''b'']]"
                 "editor_at [entry_of ''A''] 0" idle_modifier
                 "grid_of \<lparr>data = [[''A'']], headers = [''h'']\<rparr>"]
  from t h have "csvData (snd (fst (processWithAI
                     (Parsed (Some (response_of True [[''h1''], [''a'', ''b'']])))
                     (idle_modifier, editor_at [entry_of ''A''] 0)))) =
                 Some \<lparr>data = [[''a'', ''b'']], headers = [''h1'']\<rparr>"
    by (simp add: Let_def)
  moreover from t u have "normalize_effect (sync_effect \<lparr>data = [[''a'', ''b'']], headers = [''h1'']\<rparr>
                       (grid_of \<lparr>data = [[''A'']], headers = [''h'']\<rparr>)) =
     (grid_of \<lparr>data = [[''a'']], headers = [''h1'']\<rparr>, [OnDataChange [[''a'']]])"
    by (simp add: Let_def grid_of_def)
  ultimately show ?thesis using h u by blast
qed

text \<open>
  Applying the payload \<open>[[h1], [a, b]]\<close>: the table accepted and recorded has the row
  \<open>[a, b]\<close>, not \<open>[a]\<close>.
\<close>

theorem reconcile_wide_row_counterexample:
  "csvData (snd (fst (processWithAI (Parsed (Some (response_of True [[''h1''], [''a'', ''b'']])))
                        (idle_modifier, editor_at [entry_of ''A''] 0)))) =
     Some \<lparr>data = [[''a'', ''b'']], headers = [''h1'']\<rparr> \<and>
   history (snd (fst (processWithAI (Parsed (Some (response_of True [[''h1''], [''a'', ''b'']])))
                        (idle_modifier, editor_at [entry_of ''A''] 0)))) =
     [entry_of ''A'',
      \<lparr>hs_csvData = Some \<lparr>data = [[''a'', ''b'']], headers = [''h1'']\<rparr>,
       hs_fileName = ''data.csv''\<rparr>] \<and>
   csvData (snd (fst (processWithAI (Parsed (Some (response_of True [[''h1''], [''a'', ''b'']])))
                        (idle_modifier, editor_at [entry_of ''A''] 0)))) \<noteq>
     Some \<lparr>data = [[''a'']], headers = [''h1'']\<rparr>"
  by (simp add: processWithAI_parsed response_of_def onDataUpdate_def updateDataWithHistory_def
      updateHistory_def js_slice_def js_rel_index_def js_push_def Let_def editor_at_def
      entry_of_def)

section \<open>Properties of the grid's edits\<close>

lemma filter_index_from_take_drop:
  "filter_index_from i k xs =
     (if i \<le> k then take (k - i) xs @ drop (Suc (k - i)) xs else xs)"
proof (induction xs arbitrary: i)
  case Nil
  show ?case by simp
next
  case (Cons x xs)
  show ?case
  proof (cases "i < k")
    case True
    then have "k - i = Suc (k - Suc i)" by simp
    with True Cons [of "Suc i"] show ?thesis by simp
  next
    case False
    with Cons [of "Suc i"] show ?thesis by (cases "i = k") simp_all
  qed
qed

lemma filter_index_take_drop: "filter_index k xs = take k xs @ drop (Suc k) xs"
  by (simp add: filter_index_def filter_index_from_take_drop)

text \<open>
  Claim C8. \<open>deleteColumn\<close> removes the header at the column index, and from every row,
  first right-padded with empty strings up to the header count when shorter, the cell at
  that index; it stores the result, sets the update flag and passes headers and rows
  up. For a valid index one header goes, and a row of at most the header count ends
  one short of it. Deleting column 0 of headers \<open>[a, b]\<close> with the row \<open>[1, 2]\<close> gives
  headers \<open>[b]\<close> and the row \<open>[2]\<close>.
\<close>

theorem deleteColumn_removes_column:
  "(let n = length (internalHeaders g);
        padded = (\<lambda>row. row @ replicate (n - length row) []);
        newHeaders = take colIndex (internalHeaders g) @ drop (Suc colIndex) (internalHeaders g);
        newData = map (\<lambda>row. take colIndex (padded row) @ drop (Suc colIndex) (padded row))
                      (internalData g)
    in deleteColumn colIndex g =
         (g\<lparr>internalHeaders := newHeaders, internalData := newData, isUpdating := True\<rparr>,
          [OnHeaderChange newHeaders, OnDataChange newData]) \<and>
       (colIndex < n \<longrightarrow>
          length newHeaders = n - 1 \<and>
          (\<forall>i < length (internalData g).
             length (newData ! i) = max n (length (internalData g ! i)) - 1))) \<and>
   deleteColumn 0 (grid_of \<lparr>data = [[''1'', ''2'']], headers = [''a'', ''b'']\<rparr>) =
     ((grid_of \<lparr>data = [[''2'']], headers = [''b'']\<rparr>)\<lparr>isUpdating := True\<rparr>,
      [OnHeaderChange [''b''], OnDataChange [[''2'']]])"
proof (intro conjI)
  have pad: "(if length row < n then row @ replicate (n - length row) [] else row) =
             row @ replicate (n - length row) []" for row :: "string list" and n
    by simp
  show "let n = length (internalHeaders g);
        padded = (\<lambda>row. row @ replicate (n - length row) []);
        newHeaders = take colIndex (internalHeaders g) @ drop (Suc colIndex) (internalHeaders g);
        newData = map (\<lambda>row. take colIndex (padded row) @ drop (Suc colIndex) (padded row))
                      (internalData g)
    in deleteColumn colIndex g =
         (g\<lparr>internalHeaders := newHeaders, internalData := newData, isUpdating := True\<rparr>,
          [OnHeaderChange newHeaders, OnDataChange newData]) \<and>
       (colIndex < n \<longrightarrow>
          length newHeaders = n - 1 \<and>
          (\<forall>i < length (internalData g).
             length (newData ! i) = max n (length (internalData g ! i)) - 1))"
    unfolding Let_def deleteColumn_def filter_index_take_drop pad
    by (auto simp: min_def max_def)
next
  show "deleteColumn 0 (grid_of \<lparr>data = [[''1'', ''2'']], headers = [''a'', ''b'']\<rparr>) =
     ((grid_of \<lparr>data = [[''2'']], headers = [''b'']\<rparr>)\<lparr>isUpdating := True\<rparr>,
      [OnHeaderChange [''b''], OnDataChange [[''2'']]])"
    by (simp add: deleteColumn_def filter_index_take_drop grid_of_def Let_def)
qed

theorem deleteColumn_removes_column_witness:
  "0 < length (internalHeaders (grid_of \<lparr>data = [[''1'', ''2''], [''3'']], headers = [''a'', ''b'']\<rparr>)) \<and>
   (0::nat) < length (internalData (grid_of \<lparr>data = [[''1'', ''2''], [''3'']], headers = [''a'', ''b'']\<rparr>)) \<and>
   deleteColumn 0 (grid_of \<lparr>data = [[''1'', ''2''], [''3'']], headers = [''a'', ''b'']\<rparr>) =
     ((grid_of \<lparr>data = [[''2''], [[]]], headers = [''b'']\<rparr>)\<lparr>isUpdating := True\<rparr>,
      [OnHeaderChange [''b''], OnDataChange [[''2''], [[]]]])"
  using deleteColumn_removes_column
          [of "grid_of \<lparr>data = [[''1'', ''2''], [''3'']], headers = [''a'', ''b'']\<rparr>" 0]
  by (simp add: grid_of_def Let_def)

lemma digit_char_value:
  assumes "d < 10"
  shows "of_char (''0123456789'' ! d) = (48::nat) + d"
proof -
  from assms have "d = 0 \<or> d = 1 \<or> d = 2 \<or> d = 3 \<or> d = 4 \<or> d = 5 \<or> d = 6 \<or> d = 7 \<or> d = 8 \<or> d = 9"
    by arith
  then show ?thesis by (elim disjE) simp_all
qed

lemma decimal_value_append:
  "decimal_value (xs @ [c]) = 10 * decimal_value xs + (of_char c - 48)"
  by (simp add: decimal_value_def)

lemma decimal_value_nat_to_string: "decimal_value (nat_to_string n) = n"
proof (induction n rule: nat_to_string.induct)
  case (1 n)
  show ?case
  proof (cases "n < 10")
    case True
    then show ?thesis
      by (subst nat_to_string.simps) (simp add: decimal_value_def digit_char_value)
  next
    case False
    with 1 have "decimal_value (nat_to_string (n div 10)) = n div 10" by simp
    with False show ?thesis
      by (subst nat_to_string.simps) (simp add: decimal_value_append digit_char_value)
  qed
qed

text \<open>
  Claim C7, as the code has it. \<open>addColumn\<close> appends one header, the word
  \<open>column_label\<close>, a space and the decimal digits of the header count plus one, and
  appends one empty string to every row; it stores the result, sets the update flag and
  passes headers and rows up. On headers \<open>[a]\<close> with rows \<open>[x]\<close> and \<open>[y]\<close> the headers
  become \<open>[a, column_label 2]\<close> and the rows \<open>[x, ""]\<close> and \<open>[y, ""]\<close>.
\<close>

theorem addColumn_appends_labelled_column:
  "(let newHeaders = internalHeaders g @
                     [column_label @ '' '' @ nat_to_string (length (internalHeaders g) + 1)];
        newData = map (\<lambda>row. row @ [[]]) (internalData g)
    in addColumn g =
         (g\<lparr>internalHeaders := newHeaders, internalData := newData, isUpdating := True\<rparr>,
          [OnHeaderChange newHeaders, OnDataChange newData])) \<and>
   decimal_value (nat_to_string (length (internalHeaders g) + 1)) = length (internalHeaders g) + 1 \<and>
   addColumn (grid_of \<lparr>data = [[''x''], [''y'']], headers = [''a'']\<rparr>) =
     ((grid_of \<lparr>data = [[''x'', []], [''y'', []]], headers = [''a'', column_label @ '' 2'']\<rparr>)
        \<lparr>isUpdating := True\<rparr>,
      [OnHeaderChange [''a'', column_label @ '' 2''], OnDataChange [[''x'', []], [''y'', []]]])"
proof (intro conjI)
  show "let newHeaders = internalHeaders g @
                     [column_label @ '' '' @ nat_to_string (length (internalHeaders g) + 1)];
        newData = map (\<lambda>row. row @ [[]]) (internalData g)
    in addColumn g =
         (g\<lparr>internalHeaders := newHeaders, internalData := newData, isUpdating := True\<rparr>,
          [OnHeaderChange newHeaders, OnDataChange newData])"
    by (simp add: addColumn_def js_push_def Let_def)
next
  show "decimal_value (nat_to_string (length (internalHeaders g) + 1)) = length (internalHeaders g) + 1"
    by (rule decimal_value_nat_to_string)
next
  have "nat_to_string (Suc (Suc 0)) = ''2''"
    by (subst nat_to_string.simps) simp
  then show "addColumn (grid_of \<lparr>data = [[''x''], [''y'']], headers = [''a'']\<rparr>) =
     ((grid_of \<lparr>data = [[''x'', []], [''y'', []]], headers = [''a'', column_label @ '' 2'']\<rparr>)
        \<lparr>isUpdating := True\<rparr>,
      [OnHeaderChange [''a'', column_label @ '' 2''], OnDataChange [[''x'', []], [''y'', []]]])"
    by (simp add: addColumn_def js_push_def Let_def grid_of_def)
qed

theorem addColumn_appends_labelled_column_witness:
  "addColumn (grid_of \<lparr>data = [[''x'']], headers = [''a'', ''b'']\<rparr>) =
     ((grid_of \<lparr>data = [[''x'', []]], headers = [''a'', ''b'', column_label @ '' 3'']\<rparr>)
        \<lparr>isUpdating := True\<rparr>,
      [OnHeaderChange [''a'', ''b'', column_label @ '' 3''], OnDataChange [[''x'', []]]])"
proof -
  have "nat_to_string (Suc (Suc (Suc 0))) = ''3''"
    by (subst nat_to_string.simps) simp
  with addColumn_appends_labelled_column [of "grid_of \<lparr>data = [[''x'']], headers = [''a'', ''b'']\<rparr>"]
  show ?thesis
    by (simp add: Let_def grid_of_def)
qed

text \<open>
  The header added to \<open>[a]\<close> is not \<open>Column 2\<close>: it is the bytes of the label, a space
  and \<open>2\<close>.
\<close>

theorem addColumn_header_name_counterexample:
  "internalHeaders (fst (addColumn (grid_of \<lparr>data = [[''x''], [''y'']], headers = [''a'']\<rparr>))) \<noteq>
     [''a'', ''Column 2''] \<and>
   internalHeaders (fst (addColumn (grid_of \<lparr>data = [[''x''], [''y'']], headers = [''a'']\<rparr>))) =
     [''a'', [CHR 0xE6, CHR 0xAC, CHR 0x84, CHR 0xE4, CHR 0xBD, CHR 0x8D, CHR '' '', CHR ''2'']]"
proof -
  have "nat_to_string (Suc (Suc 0)) = ''2''"
    by (subst nat_to_string.simps) simp
  then show ?thesis
    by (simp add: addColumn_def js_push_def Let_def grid_of_def column_label_def)
qed







section \<open>Properties of the upload\<close>

text \<open>
  Claim C10. An upload sets the file name to the uploaded file's name before the parse
  result is looked at, whatever that result is; when the parser delivers zero rows, the
  table, the history and the cursor stay as they were, the toast reports an empty file,
  and the file name is the new one, so the state differs from the one before whenever
  the names differ.
\<close>

theorem empty_upload_keeps_table_changes_file_name:
  "fileName (fst (handleFileUpload (Some name) outcome s)) = name \<and>
   (let s' = fst (handleFileUpload (Some name) (Complete []) s)
    in csvData s' = csvData s \<and> history s' = history s \<and>
       currentHistoryIndex s' = currentHistoryIndex s \<and>
       fileName s' = name \<and>
       snd (handleFileUpload (Some name) (Complete []) s) = Some UploadEmpty) \<and>
   (fileName s \<noteq> name \<longrightarrow> fst (handleFileUpload (Some name) (Complete []) s) \<noteq> s)"
proof (intro conjI impI)
  show "fileName (fst (handleFileUpload (Some name) outcome s)) = name"
    by (cases outcome) (simp_all add: handleFileUpload_def Let_def updateHistory_frame)
next
  show "let s' = fst (handleFileUpload (Some name) (Complete []) s)
    in csvData s' = csvData s \<and> history s' = history s \<and>
       currentHistoryIndex s' = currentHistoryIndex s \<and>
       fileName s' = name \<and>
       snd (handleFileUpload (Some name) (Complete []) s) = Some UploadEmpty"
    by (simp add: handleFileUpload_def Let_def)
next
  assume "fileName s \<noteq> name"
  moreover have "fileName (fst (handleFileUpload (Some name) (Complete []) s)) = name"
    by (simp add: handleFileUpload_def Let_def)
  ultimately show "fst (handleFileUpload (Some name) (Complete []) s) \<noteq> s"
    by auto
qed

theorem empty_upload_keeps_table_changes_file_name_witness:
  "fileName (editor_at [entry_of ''A''] 0) \<noteq> ''empty.csv'' \<and>
   handleFileUpload (Some ''empty.csv'') (Complete []) (editor_at [entry_of ''A''] 0) =
     ((editor_at [entry_of ''A''] 0)\<lparr>fileName := ''empty.csv''\<rparr>, Some UploadEmpty) \<and>
   fst (handleFileUpload (Some ''empty.csv'') (Complete []) (editor_at [entry_of ''A''] 0)) \<noteq>
     editor_at [entry_of ''A''] 0"
proof -
  have n: "fileName (editor_at [entry_of ''A''] 0) \<noteq> ''empty.csv''"
    by (simp add: editor_at_def entry_of_def)
  from empty_upload_keeps_table_changes_file_name
         [of "''empty.csv''" ParseError "editor_at [entry_of ''A''] 0"] n
  have "fst (handleFileUpload (Some ''empty.csv'') (Complete []) (editor_at [entry_of ''A''] 0)) \<noteq>
     editor_at [entry_of ''A''] 0"
    by blast
  moreover have "handleFileUpload (Some ''empty.csv'') (Complete []) (editor_at [entry_of ''A''] 0) =
     ((editor_at [entry_of ''A''] 0)\<lparr>fileName := ''empty.csv''\<rparr>, Some UploadEmpty)"
    by (simp add: handleFileUpload_def Let_def editor_at_def)
  ultimately show ?thesis using n by blast
qed

section \<open>The states the editor reaches\<close>

text \<open>
  Every reachable state is either the empty start (no table, no entries, cursor
  \<open>-1\<close>) or has its cursor on an entry that stores the table on screen. So whenever a
  table is loaded, and undo or redo can be asked for, both invariants hold.
\<close>

lemma updateHistory_establishes:
  assumes "- 1 \<le> currentHistoryIndex s" and "csvData s = t"
  shows "cursor_in_bounds (updateHistory t l s) \<and> table_at_cursor (updateHistory t l s)"
proof -
  let ?u = "updateHistory t l s"
  have b: "cursor_in_bounds ?u"
    by (rule updateHistory_cursor_in_bounds [OF assms(1)])
  then have "js_index (history ?u) (currentHistoryIndex ?u) =
             Some (history ?u ! nat (currentHistoryIndex ?u))"
    by (intro js_index_nth) (simp_all add: cursor_in_bounds_def)
  with updateHistory_entry_at_cursor [OF assms(1), of t l] assms(2)
  have "table_at_cursor ?u"
    by (simp add: table_at_cursor_def updateHistory_frame)
  with b show ?thesis by simp
qed

lemma handleUndo_keeps_invariants:
  assumes "cursor_in_bounds s" and "table_at_cursor s" and "handleUndo s = Inr (s', t)"
  shows "cursor_in_bounds s' \<and> table_at_cursor s'"
proof (cases "currentHistoryIndex s = 0")
  case True
  with assms show ?thesis by (simp add: handleUndo_def)
next
  case False
  with assms(1) have "js_index (history s) (currentHistoryIndex s - 1) =
      Some (history s ! nat (currentHistoryIndex s - 1))"
    by (intro js_index_nth) (auto simp: cursor_in_bounds_def)
  with False assms(1,3) show ?thesis
    by (auto simp: handleUndo_def Let_def cursor_in_bounds_def table_at_cursor_def)
qed

lemma handleRedo_keeps_invariants:
  assumes "cursor_in_bounds s" and "table_at_cursor s" and "handleRedo s = Inr (s', t)"
  shows "cursor_in_bounds s' \<and> table_at_cursor s'"
proof (cases "currentHistoryIndex s = int (length (history s)) - 1")
  case True
  with assms show ?thesis by (simp add: handleRedo_def)
next
  case False
  with assms(1) have "js_index (history s) (currentHistoryIndex s + 1) =
      Some (history s ! nat (currentHistoryIndex s + 1))"
    by (intro js_index_nth) (auto simp: cursor_in_bounds_def)
  with False assms(1,3) show ?thesis
    by (auto simp: handleRedo_def Let_def cursor_in_bounds_def table_at_cursor_def)
qed

lemma reachable_invariant:
  "reachable s \<Longrightarrow>
   (history s = [] \<and> currentHistoryIndex s = - 1 \<and> csvData s = None) \<or>
   (cursor_in_bounds s \<and> table_at_cursor s)"
proof (induction rule: reachable.induct)
  case start
  show ?case by (simp add: initial_editor_def)
next
  case (restored parsedData savedFileName)
  show ?case
    by (simp add: restoreSaved_def initial_editor_def Let_def cursor_in_bounds_def
        table_at_cursor_def js_index_def split: option.splits)
next
  case (template s)
  then have "- 1 \<le> currentHistoryIndex s" by (auto simp: cursor_in_bounds_def)
  then show ?case
    by (simp add: createTemplate_def updateDataWithHistory_def Let_def updateHistory_establishes)
next
  case (upload s chosen outcome)
  then have c: "- 1 \<le> currentHistoryIndex s" by (auto simp: cursor_in_bounds_def)
  show ?case
  proof (cases chosen)
    case None
    with upload show ?thesis by (simp add: handleFileUpload_def)
  next
    case (Some name)
    show ?thesis
    proof (cases outcome)
      case ParseError
      with Some upload show ?thesis
        by (auto simp: handleFileUpload_def Let_def cursor_in_bounds_def table_at_cursor_def)
    next
      case (Complete parsedData)
      show ?thesis
      proof (cases "parsedData = []")
        case True
        with Some Complete upload show ?thesis
          by (auto simp: handleFileUpload_def Let_def cursor_in_bounds_def table_at_cursor_def)
      next
        case False
        let ?t = "Some \<lparr>data = js_slice_from parsedData 1, headers = hd parsedData\<rparr>"
        let ?u = "updateHistory ?t name (s\<lparr>fileName := name, isLoading := True, csvData := ?t\<rparr>)"
        from c have "cursor_in_bounds ?u \<and> table_at_cursor ?u"
          by (intro updateHistory_establishes) simp_all
        then have "cursor_in_bounds (?u\<lparr>isLoading := False\<rparr>) \<and>
                   table_at_cursor (?u\<lparr>isLoading := False\<rparr>)"
          by (simp add: cursor_in_bounds_def table_at_cursor_def)
        with False Some Complete show ?thesis
          by (simp add: handleFileUpload_def Let_def)
      qed
    qed
  qed
next
  case (undo s s' t)
  then show ?case using handleUndo_keeps_invariants [of s s' t] by auto
next
  case (redo s s' t)
  then show ?case using handleRedo_keeps_invariants [of s s' t] by auto
next
  case (data_change s newData)
  then obtain d where d: "csvData s = Some d" by auto
  from data_change have "- 1 \<le> currentHistoryIndex s" by (auto simp: cursor_in_bounds_def)
  with d show ?case
    by (simp add: handleDataChange_def Let_def updateHistory_establishes)
next
  case (header_change s newHeaders)
  then obtain d where d: "csvData s = Some d" by auto
  from header_change have "- 1 \<le> currentHistoryIndex s" by (auto simp: cursor_in_bounds_def)
  with d show ?case
    by (simp add: handleHeaderChange_def Let_def updateHistory_establishes)
next
  case (analysis s response m)
  then have inv: "cursor_in_bounds s \<and> table_at_cursor s" by auto
  then have c: "- 1 \<le> currentHistoryIndex s" by (simp add: cursor_in_bounds_def)
  show ?case
  proof (cases "snd (fst (processWithAI response (m, s))) = s")
    case True
    with inv show ?thesis by simp
  next
    case False
    have "\<exists>r. response = Parsed (Some r) \<and> needsModification r \<and> table r \<noteq> []"
    proof (cases response)
      case Threw
      with False show ?thesis by (simp add: processWithAI_no_value)
    next
      case (Parsed v)
      with False show ?thesis
        by (cases v) (auto simp: processWithAI_no_value processWithAI_parsed split: if_splits)
    qed
    then obtain r where r: "response = Parsed (Some r)" "needsModification r" "table r \<noteq> []"
      by blast
    with c show ?thesis
      by (simp add: processWithAI_parsed onDataUpdate_def updateDataWithHistory_def
          updateHistory_establishes)
  qed
qed

lemma reachable_with_table:
  "reachable s \<Longrightarrow> csvData s \<noteq> None \<Longrightarrow> cursor_in_bounds s \<and> table_at_cursor s"
  using reachable_invariant [of s] by auto

end
